theory Spec2Isabelle
  imports Complex_Main "HOL-Library.Word"
begin

section \<open>Arrays, errors and the library calls of MeetingVirtualBackground.py\<close>

text \<open>
  A numpy array of shape (H, W, C) is a list of H rows, each a list of W pixels, each a
  list of C channel values. A camera frame and a background have dtype uint8; the
  segmentation mask is a float32 array of shape (H, W), whose entries are modelled by the
  rationals they denote (erosion and comparison do no rounding).
\<close>

type_synonym frame = "8 word list list list"
type_synonym mask = "rat list list"
type_synonym condition = "bool list list list"

datatype error =
    ValueError
  | IndexError
  | AttributeError
  | CvError
  | SegmentationError

definition is_array2 :: "nat \<Rightarrow> nat \<Rightarrow> 'a list list \<Rightarrow> bool" where
  "is_array2 h w a = (length a = h \<and> list_all (\<lambda>r. length r = w) a)"

definition is_array3 :: "nat \<Rightarrow> nat \<Rightarrow> nat \<Rightarrow> 'a list list list \<Rightarrow> bool" where
  "is_array3 h w c a = (length a = h \<and> list_all (is_array2 w c) a)"

text \<open>\<open>a.shape[0]\<close> and \<open>a.shape[1]\<close>.\<close>

definition shape0 :: "'a list list \<Rightarrow> nat" where
  "shape0 a = length a"

definition shape1 :: "'a list list \<Rightarrow> nat" where
  "shape1 a = (case a of [] \<Rightarrow> 0 | r # _ \<Rightarrow> length r)"

text \<open>
  Subscripting a Python list, \<open>xs[i]\<close>: an index from 0 up to the length reads from the
  front, one from minus the length up to -1 reads from the back, and any other index
  raises IndexError.
\<close>

definition py_getitem :: "'a list \<Rightarrow> int \<Rightarrow> error + 'a" where
  "py_getitem xs i =
     (if 0 \<le> i \<and> i < int (length xs) then Inr (xs ! nat i)
      else if - int (length xs) \<le> i \<and> i < 0 then Inr (xs ! nat (int (length xs) + i))
      else Inl IndexError)"

subsection \<open>np.where\<close>

text \<open>
  \<open>np.where(c, x, y)\<close> broadcasts its three operands to a common shape and selects
  elementwise. Two axis lengths are compatible when they are equal or one of them is 1;
  otherwise numpy raises ValueError. An operand of length 1 along an axis is read at
  index 0 for every position of that axis.
\<close>

definition broadcast_len :: "nat \<Rightarrow> nat \<Rightarrow> nat option" where
  "broadcast_len a b =
     (if a = b then Some a else if a = 1 then Some b else if b = 1 then Some a else None)"

definition bget :: "'a list \<Rightarrow> nat \<Rightarrow> 'a" where
  "bget xs i = (if length xs = 1 then xs ! 0 else xs ! i)"

fun collect :: "(error + 'a) list \<Rightarrow> error + 'a list" where
  "collect [] = Inr []"
| "collect (r # rs) =
     (case r of
        Inl e \<Rightarrow> Inl e
      | Inr x \<Rightarrow> (case collect rs of Inl e \<Rightarrow> Inl e | Inr xs \<Rightarrow> Inr (x # xs)))"

definition where_axis ::
  "('c \<Rightarrow> 'a \<Rightarrow> 'b \<Rightarrow> error + 'r) \<Rightarrow> 'c list \<Rightarrow> 'a list \<Rightarrow> 'b list \<Rightarrow> error + 'r list" where
  "where_axis f cs xs ys =
     (case broadcast_len (length cs) (length xs) of
        None \<Rightarrow> Inl ValueError
      | Some n \<Rightarrow>
          (case broadcast_len n (length ys) of
             None \<Rightarrow> Inl ValueError
           | Some m \<Rightarrow> collect (map (\<lambda>i. f (bget cs i) (bget xs i) (bget ys i)) [0..<m])))"

definition np_where :: "condition \<Rightarrow> 'a list list list \<Rightarrow> 'a list list list \<Rightarrow> error + 'a list list list" where
  "np_where c x y =
     where_axis (where_axis (where_axis (\<lambda>b u v. Inr (if b then u else v)))) c x y"

subsection \<open>cv2.erode with an all-ones square kernel\<close>

text \<open>
  \<open>cv2.erode(src, np.ones((k, k)), iterations=n)\<close>: each pass replaces every entry by the
  minimum of the entries under the kernel, the kernel anchored at its centre
  \<open>k div 2\<close>; with OpenCV's default border the positions outside the array do not enter
  the minimum.
\<close>

definition window :: "nat \<Rightarrow> nat \<Rightarrow> nat \<Rightarrow> nat list" where
  "window k n i = [i - k div 2 ..< min n (i + (k - k div 2))]"

definition erode_at :: "nat \<Rightarrow> 'a::linorder list list \<Rightarrow> nat \<Rightarrow> nat \<Rightarrow> 'a" where
  "erode_at k src y x =
     fold min
       (concat (map (\<lambda>y'. map (\<lambda>x'. src ! y' ! x') (window k (shape1 src) x))
                    (window k (shape0 src) y)))
       (src ! y ! x)"

definition erode_pass :: "nat \<Rightarrow> 'a::linorder list list \<Rightarrow> 'a list list" where
  "erode_pass k src =
     map (\<lambda>y. map (\<lambda>x. erode_at k src y x) [0..<shape1 src]) [0..<shape0 src]"

definition cv_erode :: "'a::linorder list list \<Rightarrow> nat \<Rightarrow> nat \<Rightarrow> 'a list list" where
  "cv_erode src k iterations = (erode_pass k ^^ iterations) src"

section \<open>Constants and global state\<close>

definition NUM_BACKGROUNDS :: nat where
  "NUM_BACKGROUNDS = 6"

definition BLUR_KERNEL_SIZE :: "nat \<times> nat" where
  "BLUR_KERNEL_SIZE = (55, 55)"

text \<open>
  \<open>SEGMENTATION_THRESHOLD = 0.1\<close>. The literal denotes the binary float nearest to one
  tenth, and the mask entries are float32 values; the model compares the entries, as
  rationals, with one tenth itself. For every float32 entry other than the one nearest to
  one tenth the two comparisons agree, in single and in double precision.
\<close>

definition SEGMENTATION_THRESHOLD :: rat where
  "SEGMENTATION_THRESHOLD = 1 / 10"

text \<open>
  The module's globals. An entry of \<open>background_images\<close> is what \<open>cv2.imread\<close> or
  \<open>create_placeholder_background\<close> returned: an image, or Python's \<open>None\<close>.
\<close>

record state =
  selected_bg_index :: int
  apply_blur :: bool
  background_images :: "frame option list"

section \<open>apply_effects\<close>

text \<open>
  The first half of \<open>apply_effects\<close> (the mask processor): erosion with a 7 x 7 kernel,
  \<open>np.stack((mask,) * 3, axis=-1)\<close>, and the strict comparison with the threshold.
\<close>

definition np_stack3 :: "'a list list \<Rightarrow> 'a list list list" where
  "np_stack3 m = map (map (\<lambda>v. replicate 3 v)) m"

definition np_greater :: "rat list list list \<Rightarrow> rat \<Rightarrow> condition" where
  "np_greater a t = map (map (map (\<lambda>v. t < v))) a"

definition mask_condition :: "mask \<Rightarrow> condition" where
  "mask_condition segmentation_mask =
     (let eroded = cv_erode segmentation_mask 7 1
      in np_greater (np_stack3 eroded) SEGMENTATION_THRESHOLD)"

text \<open>
  The second half of \<open>apply_effects\<close> (the compositor), from \<open>if selected_bg_index >= 0\<close>
  on. \<open>cv2.resize\<close> and \<open>cv2.GaussianBlur\<close> are the library's: they are parameters, and
  either may raise.
\<close>

type_synonym resize_fn = "frame \<Rightarrow> nat \<times> nat \<Rightarrow> error + frame"
type_synonym blur_fn = "frame \<Rightarrow> nat \<times> nat \<Rightarrow> nat \<Rightarrow> error + frame"

definition composite ::
  "resize_fn \<Rightarrow> blur_fn \<Rightarrow> state \<Rightarrow> frame \<Rightarrow> condition \<Rightarrow> error + frame" where
  "composite cv_resize cv_GaussianBlur st img cond =
     (if selected_bg_index st \<ge> 0 \<and> selected_bg_index st < int (length (background_images st))
      then
        (case py_getitem (background_images st) (selected_bg_index st) of
           Inl e \<Rightarrow> Inl e
         | Inr None \<Rightarrow> Inl AttributeError
         | Inr (Some bg) \<Rightarrow>
             (case cv_resize bg (shape1 img, shape0 img) of
                Inl e \<Rightarrow> Inl e
              | Inr bg_image \<Rightarrow>
                  (case (if apply_blur st then cv_GaussianBlur bg_image BLUR_KERNEL_SIZE 0
                         else Inr bg_image) of
                     Inl e \<Rightarrow> Inl e
                   | Inr bg_image' \<Rightarrow> np_where cond img bg_image')))
      else if apply_blur st
      then
        (case cv_GaussianBlur img BLUR_KERNEL_SIZE 0 of
           Inl e \<Rightarrow> Inl e
         | Inr blurred_image \<Rightarrow> np_where cond img blurred_image)
      else Inr img)"

definition apply_effects ::
  "resize_fn \<Rightarrow> blur_fn \<Rightarrow> state \<Rightarrow> frame \<Rightarrow> mask \<Rightarrow> error + frame" where
  "apply_effects cv_resize cv_GaussianBlur st img segmentation_mask =
     composite cv_resize cv_GaussianBlur st img (mask_condition segmentation_mask)"

section \<open>Session state: the control routes\<close>

subsection \<open>Python's str() on an integer\<close>

text \<open>The decimal numeral of an integer, as \<open>str(i)\<close> and an f-string's \<open>{i}\<close> print it.\<close>

definition digit_char :: "nat \<Rightarrow> char" where
  "digit_char d = ''0123456789'' ! d"

fun str_nat :: "nat \<Rightarrow> string" where
  "str_nat n = (if n < 10 then [digit_char n] else str_nat (n div 10) @ [digit_char (n mod 10)])"

declare str_nat.simps [simp del]

definition py_str :: "int \<Rightarrow> string" where
  "py_str i = (if i < 0 then CHR ''-'' # str_nat (nat (- i)) else str_nat (nat i))"

subsection \<open>Python's int() on a string\<close>

text \<open>
  \<open>int(s)\<close> for a string \<open>s\<close>, base 10 (CPython's \<open>PyLong_FromString\<close>): whitespace
  around the numeral is skipped, one sign may come first, and the rest must be decimal
  digits, with single underscores allowed between digits only. A numeral of more than
  \<open>sys.int_max_str_digits\<close> digits (4300 by default) is refused. Everything refused raises
  ValueError, the value \<open>None\<close> here. A character is a code point below 256; among these
  the decimal digits are 0 to 9 and the whitespace \<open>int\<close> skips is tab, line feed,
  vertical tab, form feed, carriage return, space, U+0085 and U+00A0.
\<close>

definition int_max_str_digits :: nat where
  "int_max_str_digits = 4300"

definition is_int_space :: "char \<Rightarrow> bool" where
  "is_int_space c = (of_char c \<in> {9, 10, 11, 12, 13, 32, 133, 160 :: nat})"

definition is_digit :: "char \<Rightarrow> bool" where
  "is_digit c = (48 \<le> (of_char c :: nat) \<and> (of_char c :: nat) \<le> 57)"

definition digit_value :: "char \<Rightarrow> nat" where
  "digit_value c = of_char c - 48"

text \<open>The shape of the numeral: digits and underscores, a digit first and last, no two
  underscores in a row.\<close>

fun numeral_ok :: "string \<Rightarrow> bool" where
  "numeral_ok [] = False"
| "numeral_ok [c] = is_digit c"
| "numeral_ok (c # d # r) =
     (is_digit c \<and> (if d = CHR ''_'' then numeral_ok r else numeral_ok (d # r)))"

definition numeral_value :: "string \<Rightarrow> nat" where
  "numeral_value s = foldl (\<lambda>acc c. 10 * acc + digit_value c) 0 (filter is_digit s)"

definition strip_int_space :: "string \<Rightarrow> string" where
  "strip_int_space s = rev (dropWhile is_int_space (rev (dropWhile is_int_space s)))"

definition py_int :: "string \<Rightarrow> int option" where
  "py_int s =
     (let t = strip_int_space s;
          negative = (case t of [] \<Rightarrow> False | c # _ \<Rightarrow> c = CHR ''-'');
          body = (case t of [] \<Rightarrow> [] | c # r \<Rightarrow> if c = CHR ''-'' \<or> c = CHR ''+'' then r else t)
      in if numeral_ok body \<and> length (filter is_digit body) \<le> int_max_str_digits
         then Some (if negative then - int (numeral_value body) else int (numeral_value body))
         else None)"

subsection \<open>The routes\<close>

datatype json = JStr string | JInt int | JBool bool

text \<open>What a view function returns: a dict (Flask answers 200), a dict with a status
  code, or a rendered template.\<close>

datatype view_result =
    Body "(string \<times> json) list"
  | BodyStatus "(string \<times> json) list" nat
  | Rendered string

definition index :: "state \<Rightarrow> view_result \<times> state" where
  "index st = (Rendered ''index.html'', st\<lparr>selected_bg_index := -1, apply_blur := False\<rparr>)"

definition set_background :: "string \<Rightarrow> state \<Rightarrow> view_result \<times> state" where
  "set_background bg_index st =
     (case py_int bg_index of
        None \<Rightarrow>
          (BodyStatus [(''status'', JStr ''error''), (''message'', JStr ''Invalid index format'')] 400,
           st)
      | Some i \<Rightarrow>
          if i = -1 \<or> (0 \<le> i \<and> i < int (length (background_images st)))
          then (Body [(''status'', JStr ''success''), (''selected_index'', JInt i)],
                st\<lparr>selected_bg_index := i\<rparr>)
          else (BodyStatus [(''status'', JStr ''error''), (''message'', JStr ''Invalid index'')] 400,
                st))"

text \<open>The route's \<open>int\<close> converter passes a non-negative integer; \<open>bool(state)\<close> is
  \<open>state \<noteq> 0\<close>.\<close>

definition toggle_blur :: "nat \<Rightarrow> state \<Rightarrow> view_result \<times> state" where
  "toggle_blur n st =
     (Body [(''status'', JStr ''success''), (''blur_enabled'', JBool (n \<noteq> 0))],
      st\<lparr>apply_blur := (n \<noteq> 0)\<rparr>)"

datatype request = Index | SetBackground string | ToggleBlur nat

fun handle :: "request \<Rightarrow> state \<Rightarrow> view_result \<times> state" where
  "handle Index st = index st"
| "handle (SetBackground s) st = set_background s st"
| "handle (ToggleBlur n) st = toggle_blur n st"

fun serve :: "request list \<Rightarrow> state \<Rightarrow> state" where
  "serve [] st = st"
| "serve (r # rs) st = serve rs (snd (handle r st))"

text \<open>The globals as the module sets them at import, around the loaded backgrounds.\<close>

definition initial_state :: "frame option list \<Rightarrow> state" where
  "initial_state bgs = \<lparr>selected_bg_index = -1, apply_blur = False, background_images = bgs\<rparr>"

definition index_valid :: "state \<Rightarrow> bool" where
  "index_valid st =
     (selected_bg_index st = -1
      \<or> (0 \<le> selected_bg_index st \<and> selected_bg_index st < int (length (background_images st))))"

definition succeeded :: "view_result \<Rightarrow> bool" where
  "succeeded r = (case r of Body d \<Rightarrow> map_of d ''status'' = Some (JStr ''success'') | _ \<Rightarrow> False)"

section \<open>The background store\<close>

text \<open>
  The files the store reads: a path names a directory or a file with its bytes. Paths
  are joined as \<open>os.path.join\<close> does on POSIX. The model has no failing file system
  calls (permissions, a file where a directory is expected).
\<close>

datatype node = Dir | File "8 word list"

type_synonym filesystem = "string \<Rightarrow> node option"

definition path_join :: "string \<Rightarrow> string \<Rightarrow> string" where
  "path_join a b =
     (if b \<noteq> [] \<and> hd b = CHR ''/'' then b
      else if a = [] \<or> last a = CHR ''/'' then a @ b
      else a @ ''/'' @ b)"

definition BACKGROUND_FOLDER :: string where
  "BACKGROUND_FOLDER = path_join ''static'' ''backgrounds''"

definition path_exists :: "filesystem \<Rightarrow> string \<Rightarrow> bool" where
  "path_exists fs p = (fs p \<noteq> None)"

text \<open>\<open>os.makedirs(p)\<close>: the directory and every missing directory above it.\<close>

definition dir_chain :: "string \<Rightarrow> string list" where
  "dir_chain p = map (\<lambda>n. take n p) (filter (\<lambda>n. n = length p \<or> p ! n = CHR ''/'') [1..<length p + 1])"

definition makedirs :: "filesystem \<Rightarrow> string \<Rightarrow> filesystem" where
  "makedirs fs p = (\<lambda>q. if q \<in> set (dir_chain p) \<and> fs q = None then Some Dir else fs q)"

text \<open>
  \<open>cv2.imread(path)\<close> returns the decoded image, or \<open>None\<close> when the file is missing or
  cannot be decoded. The decoder is the library's: a parameter.
\<close>

type_synonym decode_fn = "8 word list \<Rightarrow> frame option"

definition cv_imread :: "decode_fn \<Rightarrow> filesystem \<Rightarrow> string \<Rightarrow> frame option" where
  "cv_imread decode fs p = (case fs p of Some (File bytes) \<Rightarrow> decode bytes | _ \<Rightarrow> None)"

text \<open>
  \<open>cv2.putText(img, text, org, fontFace, fontScale, color, thickness)\<close> draws on the
  image in place; the drawing is the library's: a parameter that returns the image drawn
  on. \<open>cv2.FONT_HERSHEY_PLAIN\<close> is 1.
\<close>

type_synonym putText_fn =
  "frame \<Rightarrow> string \<Rightarrow> nat \<times> nat \<Rightarrow> nat \<Rightarrow> nat \<Rightarrow> 8 word \<times> 8 word \<times> 8 word \<Rightarrow> nat \<Rightarrow> frame"

definition FONT_HERSHEY_PLAIN :: nat where
  "FONT_HERSHEY_PLAIN = 1"

text \<open>
  The gradient rows: \<open>int(255 * y / 480)\<close> is a float division followed by truncation;
  \<open>255 * y / 480 = 17 * y / 32\<close> is exact in binary floating point, so the result is the
  integer quotient.
\<close>

definition gradient_row :: "nat \<Rightarrow> 8 word list list" where
  "gradient_row y =
     (let r = 255 * y div 480; g = 255 * (480 - y) div 480; b = 128
      in replicate 640 [of_nat b, of_nat g, of_nat r])"

definition create_placeholder_background :: "putText_fn \<Rightarrow> int \<Rightarrow> frame" where
  "create_placeholder_background cv_putText bg_number =
     (let placeholder = map gradient_row [0..<480]
      in cv_putText placeholder (''BG '' @ py_str bg_number) (250, 250) FONT_HERSHEY_PLAIN 2
           (255, 255, 255) 2)"

definition img_path :: "nat \<Rightarrow> string" where
  "img_path i = path_join BACKGROUND_FOLDER (py_str (int i) @ ''.png'')"

definition load_backgrounds ::
  "decode_fn \<Rightarrow> putText_fn \<Rightarrow> filesystem \<Rightarrow> state \<Rightarrow> filesystem \<times> state" where
  "load_backgrounds decode cv_putText fs0 st =
     (let fs = (if \<not> path_exists fs0 BACKGROUND_FOLDER then makedirs fs0 BACKGROUND_FOLDER else fs0);
          loaded = map (\<lambda>i. if path_exists fs (img_path i)
                              then cv_imread decode fs (img_path i)
                              else Some (create_placeholder_background cv_putText (int i)))
                       [1..<NUM_BACKGROUNDS + 1]
      in (fs, st\<lparr>background_images := loaded\<rparr>))"

section \<open>The frame pipeline: gen_frames\<close>

text \<open>
  \<open>gen_frames\<close> is a generator: the consumer (the WSGI server writing the response) asks
  for the next chunk or closes it. Between two requests the generator is suspended at its
  \<open>yield\<close>, inside the \<open>while\<close> loop and inside the \<open>with\<close> block of the segmentation
  object.

  The camera: \<open>is_open\<close> is what \<open>cap.isOpened()\<close> answers, \<open>feed\<close> lists what the
  successive calls of \<open>cap.read()\<close> will return (\<open>Some image\<close> for \<open>(True, image)\<close>,
  \<open>None\<close> for \<open>(False, None)\<close>; an exhausted feed is a failed read), \<open>releases\<close> counts
  the calls of \<open>cap.release()\<close>. \<open>seg_exits\<close> counts the exits of the \<open>with\<close> block, which
  close the segmentation object.
\<close>

datatype phase = Created | Suspended | Finished

record generator =
  phase :: phase
  acquired :: bool
  is_open :: bool
  feed :: "frame option list"
  releases :: nat
  seg_exits :: nat

datatype outcome = Yield "8 word list" | StopIteration | Raised error

text \<open>A generator object just made by calling \<open>gen_frames()\<close>: no line of the body has
  run. \<open>available\<close> says whether \<open>cv2.VideoCapture(0)\<close> will open the device.\<close>

definition new_generator :: "bool \<Rightarrow> frame option list \<Rightarrow> generator" where
  "new_generator available frames =
     \<lparr>phase = Created, acquired = False, is_open = available, feed = frames,
      releases = 0, seg_exits = 0\<rparr>"

text \<open>\<open>cv2.flip(image, 1)\<close> mirrors each row; \<open>cv2.cvtColor\<close> between BGR and RGB reverses
  the channels of each pixel.\<close>

definition cv_flip1 :: "frame \<Rightarrow> frame" where
  "cv_flip1 img = map rev img"

definition cv_swap_rb :: "frame \<Rightarrow> frame" where
  "cv_swap_rb img = map (map rev) img"

definition bytes_of :: "string \<Rightarrow> 8 word list" where
  "bytes_of s = map (\<lambda>c. of_nat (of_char c)) s"

definition CRLF :: string where
  "CRLF = [CHR 0x0D, CHR 0x0A]"

definition multipart_chunk :: "8 word list \<Rightarrow> 8 word list" where
  "multipart_chunk jpeg =
     bytes_of (''--frame'' @ CRLF) @ bytes_of (''Content-Type: image/jpeg'' @ CRLF @ CRLF)
       @ jpeg @ bytes_of CRLF"

text \<open>
  \<open>selfie_segmentation.process(image).segmentation_mask\<close> and \<open>cv2.imencode('.jpg', _)\<close>
  are the libraries': parameters, each of which may raise; \<open>imencode\<close> returns the success
  flag \<open>ret\<close> and the buffer.
\<close>

type_synonym segment_fn = "frame \<Rightarrow> error + mask"
type_synonym imencode_fn = "frame \<Rightarrow> error + bool \<times> 8 word list"

text \<open>The loop ends normally (its condition is false, or \<open>break\<close>): the \<open>with\<close> block is
  left, \<open>cap.release()\<close> runs, the generator returns.\<close>

definition loop_ends :: "generator \<Rightarrow> outcome \<times> generator" where
  "loop_ends g =
     (StopIteration,
      g\<lparr>phase := Finished, seg_exits := seg_exits g + 1, releases := releases g + 1,
        is_open := False\<rparr>)"

text \<open>An exception inside the \<open>with\<close> block leaves the block and the generator; nothing
  after the block runs.\<close>

definition unwinds :: "generator \<Rightarrow> generator" where
  "unwinds g = g\<lparr>phase := Finished, seg_exits := seg_exits g + 1\<rparr>"

text \<open>One pass of the \<open>while\<close> loop, from its condition to the \<open>yield\<close> or to the end of
  the generator. The frame rate computed between encoding and \<open>yield\<close> is not used and is
  left out. \<open>st\<close> holds the globals \<open>apply_effects\<close> reads during this pass.\<close>

definition loop_pass ::
  "segment_fn \<Rightarrow> imencode_fn \<Rightarrow> resize_fn \<Rightarrow> blur_fn \<Rightarrow> state \<Rightarrow> generator
     \<Rightarrow> outcome \<times> generator" where
  "loop_pass segment imencode cv_resize cv_GaussianBlur st g =
     (if \<not> is_open g then loop_ends g
      else
        (case feed g of
           [] \<Rightarrow> loop_ends g
         | None # rest \<Rightarrow> loop_ends (g\<lparr>feed := rest\<rparr>)
         | Some captured # rest \<Rightarrow>
             (let g' = g\<lparr>feed := rest\<rparr>;
                  rgb = cv_swap_rb (cv_flip1 captured)
              in case segment rgb of
                   Inl e \<Rightarrow> (Raised e, unwinds g')
                 | Inr segmentation_mask \<Rightarrow>
                     (let img = cv_swap_rb rgb
                      in case apply_effects cv_resize cv_GaussianBlur st img segmentation_mask of
                           Inl e \<Rightarrow> (Raised e, unwinds g')
                         | Inr output_image \<Rightarrow>
                             (case imencode output_image of
                                Inl e \<Rightarrow> (Raised e, unwinds g')
                              | Inr (ret, buffer) \<Rightarrow>
                                  (Yield (multipart_chunk buffer), g'\<lparr>phase := Suspended\<rparr>))))))"

text \<open>\<open>next(gen)\<close>: the first call runs the body from its first line, which constructs the
  capture; a later call resumes after the \<open>yield\<close>.\<close>

definition gen_next ::
  "segment_fn \<Rightarrow> imencode_fn \<Rightarrow> resize_fn \<Rightarrow> blur_fn \<Rightarrow> state \<Rightarrow> generator
     \<Rightarrow> outcome \<times> generator" where
  "gen_next segment imencode cv_resize cv_GaussianBlur st g =
     (case phase g of
        Created \<Rightarrow> loop_pass segment imencode cv_resize cv_GaussianBlur st (g\<lparr>acquired := True\<rparr>)
      | Suspended \<Rightarrow> loop_pass segment imencode cv_resize cv_GaussianBlur st g
      | Finished \<Rightarrow> (StopIteration, g))"

text \<open>\<open>gen.close()\<close>: a generator that has not started just ends; one suspended at the
  \<open>yield\<close> gets GeneratorExit raised there, which no handler catches.\<close>

definition gen_close :: "generator \<Rightarrow> generator" where
  "gen_close g =
     (case phase g of
        Created \<Rightarrow> g\<lparr>phase := Finished\<rparr>
      | Suspended \<Rightarrow> unwinds g
      | Finished \<Rightarrow> g)"

text \<open>
  The array \<open>np.where\<close> returns when its three operands have the same shape
  (h, w, k): position by position the second operand where the condition holds, the third
  elsewhere.
\<close>

definition select3 :: "nat \<Rightarrow> nat \<Rightarrow> nat \<Rightarrow> condition \<Rightarrow> 'a list list list \<Rightarrow> 'a list list list \<Rightarrow> 'a list list list" where
  "select3 h w k c x y =
     map (\<lambda>i. map (\<lambda>j. map (\<lambda>l. if c ! i ! j ! l then x ! i ! j ! l else y ! i ! j ! l) [0..<k]) [0..<w]) [0..<h]"


section \<open>Facts about the library model\<close>

lemma collect_map_Inr:
  "(\<And>i. i \<in> set js \<Longrightarrow> f i = Inr (g i)) \<Longrightarrow> collect (map f js) = Inr (map g js)"
  by (induction js) simp_all

lemma bget_nth: "i < length xs \<Longrightarrow> bget xs i = xs ! i"
  by (auto simp: bget_def)

lemma where_axis_same:
  assumes "length cs = n" "length xs = n" "length ys = n"
    and "\<And>i. i < n \<Longrightarrow> f (cs ! i) (xs ! i) (ys ! i) = Inr (g i)"
  shows "where_axis f cs xs ys = Inr (map g [0..<n])"
proof -
  have "collect (map (\<lambda>i. f (bget cs i) (bget xs i) (bget ys i)) [0..<n]) = Inr (map g [0..<n])"
    by (rule collect_map_Inr) (simp add: bget_nth assms)
  then show ?thesis
    using assms(1-3) by (simp add: where_axis_def broadcast_len_def)
qed

lemma is_array3_length: "is_array3 h w k a \<Longrightarrow> length a = h"
  by (simp add: is_array3_def)

lemma is_array3_row: "is_array3 h w k a \<Longrightarrow> i < h \<Longrightarrow> length (a ! i) = w"
  by (simp add: is_array3_def is_array2_def list_all_length)

lemma is_array3_pixel: "is_array3 h w k a \<Longrightarrow> i < h \<Longrightarrow> j < w \<Longrightarrow> length (a ! i ! j) = k"
  by (simp add: is_array3_def is_array2_def list_all_length)

lemma np_where_same_shape:
  assumes c: "is_array3 h w k c" and x: "is_array3 h w k x" and y: "is_array3 h w k y"
  shows "np_where c x y = Inr (select3 h w k c x y)"
  unfolding np_where_def select3_def
proof (rule where_axis_same[where n = h])
  show "length c = h" "length x = h" "length y = h"
    using c x y by (simp_all add: is_array3_length)
next
  fix i assume i: "i < h"
  show "where_axis (where_axis (\<lambda>b u v. Inr (if b then u else v))) (c ! i) (x ! i) (y ! i) =
        Inr (map (\<lambda>j. map (\<lambda>l. if c ! i ! j ! l then x ! i ! j ! l else y ! i ! j ! l) [0..<k]) [0..<w])"
  proof (rule where_axis_same[where n = w])
    show "length (c ! i) = w" "length (x ! i) = w" "length (y ! i) = w"
      using c x y i by (simp_all add: is_array3_row)
  next
    fix j assume j: "j < w"
    show "where_axis (\<lambda>b u v. Inr (if b then u else v)) (c ! i ! j) (x ! i ! j) (y ! i ! j) =
          Inr (map (\<lambda>l. if c ! i ! j ! l then x ! i ! j ! l else y ! i ! j ! l) [0..<k])"
    proof (rule where_axis_same[where n = k])
      show "length (c ! i ! j) = k" "length (x ! i ! j) = k" "length (y ! i ! j) = k"
        using c x y i j by (simp_all add: is_array3_pixel)
    qed simp
  qed
qed

lemma select3_array: "is_array3 h w k (select3 h w k c x y)"
  by (simp add: select3_def is_array3_def is_array2_def list_all_iff)

lemma select3_nth: "i < h \<Longrightarrow> j < w \<Longrightarrow> l < k \<Longrightarrow>
  select3 h w k c x y ! i ! j ! l = (if c ! i ! j ! l then x ! i ! j ! l else y ! i ! j ! l)"
  by (simp add: select3_def)

lemma set_window: "set (window 7 n i) = {j. j < n \<and> i \<le> j + 3 \<and> j \<le> i + 3}"
  by (auto simp: window_def)

lemma fold_min_Min: "fold min xs (a::'a::linorder) = Min (insert a (set xs))"
  using Min.set_eq_fold[of a xs] by simp

lemma is_array2_length: "is_array2 h w a \<Longrightarrow> length a = h"
  by (simp add: is_array2_def)

lemma is_array2_row: "is_array2 h w a \<Longrightarrow> i < h \<Longrightarrow> length (a ! i) = w"
  by (simp add: is_array2_def list_all_length)

lemma shape1_array2: "is_array2 h w a \<Longrightarrow> 0 < h \<Longrightarrow> shape1 a = w"
  by (cases a) (auto simp: shape1_def is_array2_def)

lemma erode_at_Min:
  assumes "y < shape0 src" "x < shape1 src"
  shows "erode_at 7 src y x =
    Min {src ! y' ! x' | y' x'. y' < shape0 src \<and> x' < shape1 src \<and> y \<le> y' + 3 \<and> y' \<le> y + 3 \<and> x \<le> x' + 3 \<and> x' \<le> x + 3}"
proof -
  let ?S = "{src ! y' ! x' | y' x'. y' < shape0 src \<and> x' < shape1 src \<and> y \<le> y' + 3 \<and> y' \<le> y + 3 \<and> x \<le> x' + 3 \<and> x' \<le> x + 3}"
  have "set (concat (map (\<lambda>y'. map (\<lambda>x'. src ! y' ! x') (window 7 (shape1 src) x)) (window 7 (shape0 src) y))) = ?S"
    by (auto simp: set_window)
  moreover have "src ! y ! x \<in> ?S"
  proof -
    have "src ! y ! x = src ! y ! x \<and> y < shape0 src \<and> x < shape1 src
        \<and> y \<le> y + 3 \<and> y \<le> y + 3 \<and> x \<le> x + 3 \<and> x \<le> x + 3"
      using assms by simp
    then show ?thesis by blast
  qed
  ultimately show ?thesis
    by (simp add: erode_at_def fold_min_Min insert_absorb)
qed

lemma cv_erode_once: "cv_erode src k (Suc 0) = erode_pass k src"
  by (simp add: cv_erode_def)

lemma mask_condition_nth:
  assumes "y < shape0 m" "x < shape1 m" "c < 3"
  shows "mask_condition m ! y ! x ! c = (SEGMENTATION_THRESHOLD < erode_at 7 m y x)"
  using assms
  by (simp add: mask_condition_def cv_erode_once erode_pass_def np_stack3_def np_greater_def)

lemma mask_condition_array: "is_array3 (shape0 m) (shape1 m) 3 (mask_condition m)"
  by (simp add: mask_condition_def cv_erode_once erode_pass_def np_stack3_def np_greater_def
      is_array3_def is_array2_def list_all_iff)

lemma fold_min_const: "set xs \<subseteq> {v} \<Longrightarrow> fold min xs (v::'a::linorder) = v"
  by (induction xs) auto

lemma shape1_replicate: "shape1 (replicate h (replicate w v)) = (if h = 0 then 0 else w)"
  by (cases h) (simp_all add: shape1_def)

lemma erode_pass_const: "erode_pass 7 (replicate h (replicate w v)) = replicate h (replicate w v)"
proof (cases "h = 0")
  case True
  then show ?thesis by (simp add: erode_pass_def shape0_def)
next
  case False
  have at: "erode_at 7 (replicate h (replicate w v)) y x = v" if "y < h" "x < w" for y x
  proof -
    let ?vs = "concat (map (\<lambda>y'. map (\<lambda>x'. replicate h (replicate w v) ! y' ! x')
                 (window 7 (shape1 (replicate h (replicate w v))) x))
                 (window 7 (shape0 (replicate h (replicate w v))) y))"
    have "set ?vs \<subseteq> {v}"
      using False by (auto simp: shape0_def shape1_replicate set_window)
    then have "fold min ?vs v = v" by (rule fold_min_const)
    then show ?thesis using that by (simp add: erode_at_def)
  qed
  have "erode_pass 7 (replicate h (replicate w v)) = map (\<lambda>y. map (\<lambda>x. v) [0..<w]) [0..<h]"
    unfolding erode_pass_def using False
    by (simp add: shape0_def shape1_replicate at)
  then show ?thesis by (simp add: map_replicate_const)
qed

lemma mask_condition_const:
  "mask_condition (replicate h (replicate w v)) =
     replicate h (replicate w (replicate 3 (SEGMENTATION_THRESHOLD < v)))"
  by (simp add: mask_condition_def cv_erode_once erode_pass_const np_stack3_def np_greater_def)

section \<open>The compositor\<close>



text \<open>
  C2 (policy B, blur without a background). When \<open>selected_bg_index\<close> is -1 and
  \<open>apply_blur\<close> is set, the compositor blurs the whole frame with a 55 x 55 kernel and
  returns the array that holds the frame's value at every position where the condition is
  true and the blurred frame's value where it is false.
\<close>

theorem policy_B_blur:
  assumes "selected_bg_index st = -1" and "apply_blur st"
    and "cv_GaussianBlur img (55, 55) 0 = Inr blurred"
    and "is_array3 h w 3 img" and "is_array3 h w 3 blurred" and "is_array3 h w 3 cond"
  shows "\<exists>out. composite cv_resize cv_GaussianBlur st img cond = Inr out
           \<and> is_array3 h w 3 out
           \<and> (\<forall>y<h. \<forall>x<w. \<forall>c<3.
                 out ! y ! x ! c = (if cond ! y ! x ! c then img ! y ! x ! c else blurred ! y ! x ! c))"
proof -
  have "composite cv_resize cv_GaussianBlur st img cond = Inr (select3 h w 3 cond img blurred)"
    using assms by (simp add: composite_def BLUR_KERNEL_SIZE_def np_where_same_shape)
  then show ?thesis
    by (simp add: select3_array select3_nth)
qed

theorem policy_B_blur_witness:
  "\<exists>out. composite (\<lambda>b sz. Inl CvError) (\<lambda>a ks sg. Inr (map (map (map (\<lambda>v. v div 2))) a))
      \<lparr>selected_bg_index = -1, apply_blur = True, background_images = []\<rparr>
      [[[10, 20, 30], [40, 50, 60]]] [[[True, True, True], [False, False, False]]] = Inr out
     \<and> is_array3 1 2 3 out
     \<and> (\<forall>y<1. \<forall>x<2. \<forall>c<3. out ! y ! x ! c =
          (if [[[True, True, True], [False, False, False]]] ! y ! x ! c
           then [[[10, 20, 30], [40, 50, 60]]] ! y ! x ! c
           else [[[5, 10, 15], [20, 25, 30]]] ! y ! x ! c))"
  by (rule policy_B_blur) (simp_all add: is_array3_def is_array2_def)

text \<open>
  C3 (policy C, passthrough). When \<open>selected_bg_index\<close> is -1 and \<open>apply_blur\<close> is
  off, the compositor returns the frame itself, whatever the condition or the mask, and
  so does \<open>apply_effects\<close>.
\<close>

theorem policy_C_identity:
  assumes "selected_bg_index st = -1" and "\<not> apply_blur st"
  shows "composite cv_resize cv_GaussianBlur st img cond = Inr img
       \<and> apply_effects cv_resize cv_GaussianBlur st img segmentation_mask = Inr img"
  using assms by (simp add: composite_def apply_effects_def)

theorem policy_C_identity_witness:
  "composite (\<lambda>b sz. Inl CvError) (\<lambda>a ks sg. Inl CvError)
      \<lparr>selected_bg_index = -1, apply_blur = False, background_images = [None]\<rparr>
      [[[10, 20, 30], [40, 50, 60]]] [[[True, True, True], [False, False, False]]]
    = Inr [[[10, 20, 30], [40, 50, 60]]]
   \<and> apply_effects (\<lambda>b sz. Inl CvError) (\<lambda>a ks sg. Inl CvError)
      \<lparr>selected_bg_index = -1, apply_blur = False, background_images = [None]\<rparr>
      [[[10, 20, 30], [40, 50, 60]]] [[1, 0]]
    = Inr [[[10, 20, 30], [40, 50, 60]]]"
  using policy_C_identity [of "\<lparr>selected_bg_index = -1, apply_blur = False, background_images = [None]\<rparr>"
      "\<lambda>b sz. Inl CvError" "\<lambda>a ks sg. Inl CvError" "[[[10, 20, 30], [40, 50, 60]]]"
      "[[[True, True, True], [False, False, False]]]" "[[1, 0]]"]
  by simp

text \<open>
  C10 (the compositor's own bounds check). When \<open>selected_bg_index\<close> is not a valid
  index of \<open>background_images\<close> (negative, or at least its length), the compositor never
  reads the collection: its result is that of the two policies without a background
  (blur of the frame, or the frame itself). When the index is valid the read is in range.
\<close>

theorem compositor_guards_index:
  "(\<not> (0 \<le> selected_bg_index st \<and> selected_bg_index st < int (length (background_images st)))
      \<longrightarrow> composite cv_resize cv_GaussianBlur st img cond =
            (if apply_blur st
             then (case cv_GaussianBlur img (55, 55) 0 of
                     Inl e \<Rightarrow> Inl e
                   | Inr blurred \<Rightarrow> np_where cond img blurred)
             else Inr img))
   \<and> (0 \<le> selected_bg_index st \<and> selected_bg_index st < int (length (background_images st))
      \<longrightarrow> py_getitem (background_images st) (selected_bg_index st)
            = Inr (background_images st ! nat (selected_bg_index st)))"
  by (simp add: composite_def py_getitem_def BLUR_KERNEL_SIZE_def)

theorem compositor_guards_index_witness:
  "\<not> (0 \<le> selected_bg_index \<lparr>selected_bg_index = 7, apply_blur = False,
              background_images = [Some [[[1, 2, 3]]], None]\<rparr>
        \<and> selected_bg_index \<lparr>selected_bg_index = 7, apply_blur = False,
              background_images = [Some [[[1, 2, 3]]], None]\<rparr>
            < int (length (background_images \<lparr>selected_bg_index = 7, apply_blur = False,
              background_images = [Some [[[1, 2, 3]]], None]\<rparr>)))
   \<and> composite (\<lambda>b sz. Inr b) (\<lambda>a ks sg. Inr a)
        \<lparr>selected_bg_index = 7, apply_blur = False,
         background_images = [Some [[[1, 2, 3]]], None]\<rparr>
        [[[10, 20, 30]]] [[[False, False, False]]] = Inr [[[10, 20, 30]]]
   \<and> py_getitem [Some [[[1, 2, 3 :: 8 word]]], None] 1 = Inr None"
  using compositor_guards_index [of "\<lparr>selected_bg_index = 7, apply_blur = False,
         background_images = [Some [[[1, 2, 3]]], None]\<rparr>" "\<lambda>b sz. Inr b" "\<lambda>a ks sg. Inr a"
         "[[[10, 20, 30]]]" "[[[False, False, False]]]"]
    compositor_guards_index [of "\<lparr>selected_bg_index = 1, apply_blur = False,
         background_images = [Some [[[1, 2, 3]]], None]\<rparr>" "\<lambda>b sz. Inr b" "\<lambda>a ks sg. Inr a"
         "[[[10, 20, 30]]]" "[[[False, False, False]]]"]
  by simp

section \<open>The mask processor\<close>

text \<open>
  C4 (mask processor). For a mask of shape (h, w) the condition has shape (h, w, 3); its
  value at row y, column x is the same in the three channels and says whether the
  minimum of the mask over the 7 x 7 window centred at (y, x), cut at the array's border,
  is strictly greater than the threshold 0.1 (erosion by one pass of a 7 x 7 all-ones kernel, then the
  strict threshold). An all-ones mask gives an all-true condition and an all-zero mask an
  all-false one.
\<close>

theorem mask_processor:
  assumes "is_array2 h w m" and "0 < h"
  shows "SEGMENTATION_THRESHOLD = 1 / 10
    \<and> is_array3 h w 3 (mask_condition m)
    \<and> (\<forall>y<h. \<forall>x<w. \<forall>c<3. mask_condition m ! y ! x ! c =
          (SEGMENTATION_THRESHOLD < Min {m ! y' ! x' | y' x'.
              y' < h \<and> x' < w \<and> y \<le> y' + 3 \<and> y' \<le> y + 3 \<and> x \<le> x' + 3 \<and> x' \<le> x + 3}))
    \<and> mask_condition (replicate h (replicate w 1)) = replicate h (replicate w [True, True, True])
    \<and> mask_condition (replicate h (replicate w 0)) = replicate h (replicate w [False, False, False])"
proof -
  have s0: "shape0 m = h" using assms by (simp add: shape0_def is_array2_def)
  have s1: "shape1 m = w" using assms by (rule shape1_array2)
  have "SEGMENTATION_THRESHOLD = 1 / 10" by (simp add: SEGMENTATION_THRESHOLD_def)
  moreover have "is_array3 h w 3 (mask_condition m)"
    using mask_condition_array[of m] by (simp add: s0 s1)
  moreover have "\<forall>y<h. \<forall>x<w. \<forall>c<3. mask_condition m ! y ! x ! c =
          (SEGMENTATION_THRESHOLD < Min {m ! y' ! x' | y' x'.
              y' < h \<and> x' < w \<and> y \<le> y' + 3 \<and> y' \<le> y + 3 \<and> x \<le> x' + 3 \<and> x' \<le> x + 3})"
    using mask_condition_nth[of _ m] erode_at_Min[of _ m]
    by (simp add: s0 s1)
  moreover have "mask_condition (replicate h (replicate w 1)) = replicate h (replicate w [True, True, True])"
    by (simp add: mask_condition_const SEGMENTATION_THRESHOLD_def numeral_3_eq_3)
  moreover have "mask_condition (replicate h (replicate w 0)) = replicate h (replicate w [False, False, False])"
    by (simp add: mask_condition_const SEGMENTATION_THRESHOLD_def numeral_3_eq_3)
  ultimately show ?thesis by blast
qed

theorem mask_processor_witness:
  "is_array2 1 2 [[1, 1 / 20 :: rat]] \<and> (0::nat) < 1
    \<and> SEGMENTATION_THRESHOLD = 1 / 10
    \<and> is_array3 1 2 3 (mask_condition [[1, 1 / 20]])
    \<and> mask_condition [[1, 1 / 20]] ! 0 ! 1 ! 2 =
          (SEGMENTATION_THRESHOLD < Min {[[1, 1 / 20 :: rat]] ! y' ! x' | y' x'.
              y' < 1 \<and> x' < 2 \<and> 0 \<le> y' + 3 \<and> y' \<le> 0 + 3 \<and> 1 \<le> x' + 3 \<and> x' \<le> 1 + 3})
    \<and> mask_condition (replicate 1 (replicate 2 1)) = replicate 1 (replicate 2 [True, True, True])
    \<and> mask_condition (replicate 1 (replicate 2 0)) = replicate 1 (replicate 2 [False, False, False])"
proof -
  have h: "is_array2 1 2 [[1, 1 / 20 :: rat]]" by (simp add: is_array2_def)
  have z: "(0::nat) < 1" by simp
  note m = mask_processor [OF h z]
  have px: "mask_condition [[1, 1 / 20]] ! 0 ! 1 ! 2 =
          (SEGMENTATION_THRESHOLD < Min {[[1, 1 / 20 :: rat]] ! y' ! x' | y' x'.
              y' < 1 \<and> x' < 2 \<and> 0 \<le> y' + 3 \<and> y' \<le> 0 + 3 \<and> 1 \<le> x' + 3 \<and> x' \<le> 1 + 3})"
    by (rule m [THEN conjunct2, THEN conjunct2, THEN conjunct1, rule_format, of 0 1 2]) simp_all
  from h z m px show ?thesis by blast
qed

section \<open>Session state\<close>

subsection \<open>int() reads back what str() prints\<close>

lemma digit_char: "d < 10 \<Longrightarrow> is_digit (digit_char d) \<and> digit_value (digit_char d) = d
   \<and> \<not> is_int_space (digit_char d) \<and> digit_char d \<noteq> CHR ''-'' \<and> digit_char d \<noteq> CHR ''+''
   \<and> digit_char d \<noteq> CHR ''_''"
proof -
  assume "d < 10"
  then have "d \<in> {0,1,2,3,4,5,6,7,8,9}" by auto
  then show ?thesis
    by (auto simp: digit_char_def is_digit_def digit_value_def is_int_space_def)
qed

lemma str_nat_digits: "list_all is_digit (str_nat n) \<and> str_nat n \<noteq> []"
proof (induction n rule: str_nat.induct)
  case (1 n)
  show ?case
  proof (cases "n < 10")
    case True
    then show ?thesis by (subst (1 2) str_nat.simps) (simp add: digit_char)
  next
    case False
    then have "n mod 10 < 10" by simp
    with False 1 show ?thesis by (subst (1 2) str_nat.simps) (simp add: digit_char)
  qed
qed

lemma numeral_ok_digits: "s \<noteq> [] \<Longrightarrow> list_all is_digit s \<Longrightarrow> numeral_ok s"
proof (induction s rule: numeral_ok.induct)
  case 1
  then show ?case by simp
next
  case (2 c)
  then show ?case by simp
next
  case (3 c d r)
  then have "d \<noteq> CHR ''_''" by (auto simp: is_digit_def)
  with 3 show ?case by simp
qed

lemma numeral_value_str_nat: "numeral_value (str_nat n) = n"
proof (induction n rule: str_nat.induct)
  case (1 n)
  show ?case
  proof (cases "n < 10")
    case True
    then show ?thesis
      by (subst str_nat.simps) (simp add: numeral_value_def digit_char)
  next
    case False
    then have m: "n mod 10 < 10" by simp
    have f: "filter is_digit (str_nat (n div 10)) = str_nat (n div 10)"
      using str_nat_digits[of "n div 10"] by (simp add: list_all_iff)
    have "numeral_value (str_nat (n div 10)) = n div 10"
      using 1 False by simp
    then have "numeral_value (str_nat (n div 10) @ [digit_char (n mod 10)]) = 10 * (n div 10) + n mod 10"
      using digit_char[OF m] by (simp add: numeral_value_def f)
    with False show ?thesis
      by (subst str_nat.simps) simp
  qed
qed

lemma strip_keeps:
  assumes "s \<noteq> []" "\<not> is_int_space (hd s)" "\<not> is_int_space (last s)"
  shows "strip_int_space s = s"
proof -
  have a: "dropWhile is_int_space s = s"
    using assms(1,2) by (cases s) simp_all
  have "dropWhile is_int_space (rev s) = rev s"
    using assms(1,3) by (cases "rev s") (simp_all add: last_rev[symmetric] hd_rev)
  then show ?thesis by (simp add: strip_int_space_def a)
qed

lemma str_nat_ends:
  "\<not> is_int_space (hd (str_nat n)) \<and> \<not> is_int_space (last (str_nat n))
   \<and> hd (str_nat n) \<noteq> CHR ''-'' \<and> hd (str_nat n) \<noteq> CHR ''+''"
proof -
  have d: "is_digit c \<Longrightarrow> \<not> is_int_space c \<and> c \<noteq> CHR ''-'' \<and> c \<noteq> CHR ''+''" for c
    by (auto simp: is_digit_def is_int_space_def)
  have "is_digit (hd (str_nat n))" "is_digit (last (str_nat n))"
    using str_nat_digits[of n] by (simp_all add: list_all_iff)
  then show ?thesis using d by blast
qed

lemma length_str_nat: "0 < k \<Longrightarrow> n < 10 ^ k \<Longrightarrow> length (str_nat n) \<le> k"
proof (induction n arbitrary: k rule: str_nat.induct)
  case (1 n)
  show ?case
  proof (cases "n < 10")
    case True
    with 1(2) show ?thesis by (subst str_nat.simps) simp
  next
    case False
    with 1(3) have "1 < k" by (cases "k = 1") (use 1(2) in auto)
    then obtain j where k: "k = Suc j" "0 < j" by (cases k) auto
    then have "n div 10 < 10 ^ j" using 1(3) by (simp add: less_mult_imp_div_less mult.commute)
    then have "length (str_nat (n div 10)) \<le> j" using 1(1) False k by simp
    with False k show ?thesis by (subst str_nat.simps) simp
  qed
qed

lemma py_int_py_str:
  assumes "\<bar>n\<bar> < 10 ^ int_max_str_digits"
  shows "py_int (py_str n) = Some n"
proof -
  let ?s = "str_nat (nat \<bar>n\<bar>)"
  have pos: "0 < int_max_str_digits" by (simp add: int_max_str_digits_def)
  have "int (nat \<bar>n\<bar>) < int (10 ^ int_max_str_digits)"
    using assms by simp
  then have "nat \<bar>n\<bar> < 10 ^ int_max_str_digits"
    by (simp only: of_nat_less_iff)
  then have len: "length ?s \<le> int_max_str_digits"
    using pos by (rule length_str_nat[rotated])
  have f: "filter is_digit ?s = ?s"
    using str_nat_digits[of "nat \<bar>n\<bar>"] by (simp add: list_all_iff)
  have ok: "numeral_ok ?s"
    using str_nat_digits[of "nat \<bar>n\<bar>"] by (simp add: numeral_ok_digits)
  have ne: "?s \<noteq> []" using str_nat_digits[of "nat \<bar>n\<bar>"] by simp
  show ?thesis
  proof (cases "n < 0")
    case True
    have minus: "\<not> is_int_space CHR ''-''" by (simp add: is_int_space_def)
    have "strip_int_space (CHR ''-'' # ?s) = CHR ''-'' # ?s"
      using str_nat_ends[of "nat \<bar>n\<bar>"] ne minus by (intro strip_keeps) simp_all
    then show ?thesis
      using True ok len f
      by (simp add: py_int_def py_str_def numeral_value_str_nat)
  next
    case False
    have "strip_int_space ?s = ?s"
      using str_nat_ends[of "nat \<bar>n\<bar>"] ne by (intro strip_keeps) simp_all
    moreover obtain c r where cr: "?s = c # r" using ne by (cases ?s) auto
    moreover have "c \<noteq> CHR ''-''" "c \<noteq> CHR ''+''"
      using str_nat_ends[of "nat \<bar>n\<bar>"] cr by simp_all
    ultimately show ?thesis
      using False ok len f numeral_value_str_nat[of "nat \<bar>n\<bar>"]
      by (simp add: py_int_def py_str_def)
  qed
qed

subsection \<open>set_background\<close>

lemma succeeded_simps:
  "succeeded (Body [(''status'', JStr ''success''), (''selected_index'', JInt i)])"
  "\<not> succeeded (BodyStatus d n)"
  by (simp_all add: succeeded_def)

text \<open>
  C5 (set_background). With \<open>py_int\<close> for Python's \<open>int\<close>: an input that does not parse
  gets the format error (400, "Invalid index format") and leaves the state as it was; one
  that parses to -1 or to an index from 0 up to the number of backgrounds is stored in
  \<open>selected_bg_index\<close> and echoed in the success response; one that parses to any other
  integer gets the range error (400, "Invalid index") and leaves the state as it was. So
  the call succeeds exactly when the input parses to -1 or to a valid index; in
  particular, for the decimal numeral of an integer \<open>n\<close> (within int's digit limit) it
  succeeds exactly when \<open>n\<close> is -1 or a valid index.
\<close>

theorem set_background_contract:
  "(py_int s = None \<longrightarrow>
      set_background s st =
        (BodyStatus [(''status'', JStr ''error''), (''message'', JStr ''Invalid index format'')] 400, st))
   \<and> (\<forall>i. py_int s = Some i \<and> (i = -1 \<or> (0 \<le> i \<and> i < int (length (background_images st)))) \<longrightarrow>
      set_background s st =
        (Body [(''status'', JStr ''success''), (''selected_index'', JInt i)],
         st\<lparr>selected_bg_index := i\<rparr>))
   \<and> (\<forall>i. py_int s = Some i \<and> i \<noteq> -1 \<and> (i < 0 \<or> int (length (background_images st)) \<le> i) \<longrightarrow>
      set_background s st =
        (BodyStatus [(''status'', JStr ''error''), (''message'', JStr ''Invalid index'')] 400, st))
   \<and> (succeeded (fst (set_background s st)) \<longleftrightarrow>
        (\<exists>i. py_int s = Some i \<and> (i = -1 \<or> (0 \<le> i \<and> i < int (length (background_images st))))))
   \<and> (\<forall>n. \<bar>n\<bar> < 10 ^ int_max_str_digits \<longrightarrow>
        (succeeded (fst (set_background (py_str n) st)) \<longleftrightarrow>
           n = -1 \<or> (0 \<le> n \<and> n < int (length (background_images st)))))"
proof -
  have main: "(py_int s = None \<longrightarrow>
      set_background s st =
        (BodyStatus [(''status'', JStr ''error''), (''message'', JStr ''Invalid index format'')] 400, st))
   \<and> (\<forall>i. py_int s = Some i \<and> (i = -1 \<or> (0 \<le> i \<and> i < int (length (background_images st)))) \<longrightarrow>
      set_background s st =
        (Body [(''status'', JStr ''success''), (''selected_index'', JInt i)],
         st\<lparr>selected_bg_index := i\<rparr>))
   \<and> (\<forall>i. py_int s = Some i \<and> i \<noteq> -1 \<and> (i < 0 \<or> int (length (background_images st)) \<le> i) \<longrightarrow>
      set_background s st =
        (BodyStatus [(''status'', JStr ''error''), (''message'', JStr ''Invalid index'')] 400, st))
   \<and> (succeeded (fst (set_background s st)) \<longleftrightarrow>
        (\<exists>i. py_int s = Some i \<and> (i = -1 \<or> (0 \<le> i \<and> i < int (length (background_images st))))))"
  proof (cases "py_int s")
    case None
    then show ?thesis by (simp add: set_background_def succeeded_simps)
  next
    case (Some i)
    then show ?thesis
      by (auto simp: set_background_def succeeded_simps)
  qed
  have "succeeded (fst (set_background (py_str n) st)) \<longleftrightarrow>
           n = -1 \<or> (0 \<le> n \<and> n < int (length (background_images st)))"
    if "\<bar>n\<bar> < 10 ^ int_max_str_digits" for n
    using py_int_py_str[OF that] by (simp add: set_background_def succeeded_simps)
  with main show ?thesis by blast
qed

theorem set_background_contract_witness:
  "py_int ''2'' = Some 2
   \<and> set_background ''2'' (initial_state [None, None, None]) =
       (Body [(''status'', JStr ''success''), (''selected_index'', JInt 2)],
        (initial_state [None, None, None])\<lparr>selected_bg_index := 2\<rparr>)
   \<and> py_int ''two'' = None
   \<and> set_background ''two'' (initial_state [None, None, None]) =
       (BodyStatus [(''status'', JStr ''error''), (''message'', JStr ''Invalid index format'')] 400,
        initial_state [None, None, None])
   \<and> py_int ''3'' = Some 3
   \<and> set_background ''3'' (initial_state [None, None, None]) =
       (BodyStatus [(''status'', JStr ''error''), (''message'', JStr ''Invalid index'')] 400,
        initial_state [None, None, None])
   \<and> py_str (- 2) = ''-2''
   \<and> \<not> succeeded (fst (set_background ''-2'' (initial_state [None, None, None])))"
proof -
  let ?st = "initial_state [None, None, None]"
  have l: "int (length (background_images ?st)) = 3" by (simp add: initial_state_def)
  have p2: "py_int ''2'' = Some 2" by code_simp
  have p3: "py_int ''3'' = Some 3" by code_simp
  have pt: "py_int ''two'' = None" by code_simp
  have s2: "py_str (- 2) = ''-2''" by code_simp
  have b: "\<bar>- 2 :: int\<bar> < 10 ^ int_max_str_digits"
  proof -
    have "(2::int) < 10 ^ 1" by simp
    also have "\<dots> \<le> 10 ^ int_max_str_digits"
      by (rule power_increasing) (simp_all add: int_max_str_digits_def)
    finally show ?thesis by simp
  qed
  note c = set_background_contract
  from c [of "''2''" ?st] p2 l
  have a2: "set_background ''2'' ?st =
       (Body [(''status'', JStr ''success''), (''selected_index'', JInt 2)], ?st\<lparr>selected_bg_index := 2\<rparr>)"
    by simp
  from c [of "''two''" ?st] pt
  have at: "set_background ''two'' ?st =
       (BodyStatus [(''status'', JStr ''error''), (''message'', JStr ''Invalid index format'')] 400, ?st)"
    by simp
  from c [of "''3''" ?st] p3 l
  have a3: "set_background ''3'' ?st =
       (BodyStatus [(''status'', JStr ''error''), (''message'', JStr ''Invalid index'')] 400, ?st)"
    by simp
  from c [of "''2''" ?st, THEN conjunct2, THEN conjunct2, THEN conjunct2, THEN conjunct2, rule_format, OF b] l s2
  have am: "\<not> succeeded (fst (set_background ''-2'' ?st))"
    by simp
  from p2 a2 pt at p3 a3 s2 am show ?thesis by blast
qed

subsection \<open>The index invariant\<close>

lemma handle_background_images: "background_images (snd (handle r st)) = background_images st"
  by (cases r) (auto simp: index_def set_background_def toggle_blur_def split: option.splits)

lemma handle_index_valid: "index_valid st \<Longrightarrow> index_valid (snd (handle r st))"
  by (cases r) (auto simp: index_valid_def index_def set_background_def toggle_blur_def split: option.splits)

lemma serve_index_valid: "index_valid st \<Longrightarrow> index_valid (serve rs st)"
  by (induction rs arbitrary: st) (simp_all add: handle_index_valid)

text \<open>
  C6 (state invariant). Starting from the module's initial globals, after any sequence of
  requests to \<open>index\<close>, \<open>set_background\<close> and \<open>toggle_blur\<close> the selected index is -1 or
  a valid index of \<open>background_images\<close>; and from any state where that holds, every
  single request and every sequence of requests keeps it.
\<close>

theorem index_always_valid:
  "index_valid (serve rs (initial_state bgs))
   \<and> (index_valid st \<longrightarrow> index_valid (snd (handle r st)) \<and> index_valid (serve rs st))"
proof -
  have "index_valid (initial_state bgs)"
    by (simp add: index_valid_def initial_state_def)
  then show ?thesis
    by (simp add: serve_index_valid handle_index_valid)
qed

theorem index_always_valid_witness:
  "index_valid (serve [SetBackground ''1'', ToggleBlur 1, SetBackground ''9'']
       (initial_state [None, None]))
   \<and> index_valid \<lparr>selected_bg_index = 0, apply_blur = True, background_images = [None, None]\<rparr>
   \<and> index_valid (snd (handle (SetBackground ''5'')
       \<lparr>selected_bg_index = 0, apply_blur = True, background_images = [None, None]\<rparr>))
   \<and> index_valid (serve [SetBackground ''1'', ToggleBlur 1, SetBackground ''9'']
       \<lparr>selected_bg_index = 0, apply_blur = True, background_images = [None, None]\<rparr>)
   \<and> selected_bg_index (serve [SetBackground ''1'', ToggleBlur 1, SetBackground ''9'']
       (initial_state [None, None])) = 1"
proof -
  have v: "index_valid \<lparr>selected_bg_index = 0, apply_blur = True, background_images = [None, None]\<rparr>"
    by (simp add: index_valid_def)
  have e: "selected_bg_index (serve [SetBackground ''1'', ToggleBlur 1, SetBackground ''9'']
       (initial_state [None, None])) = 1"
    by code_simp
  from v e index_always_valid [of "[SetBackground ''1'', ToggleBlur 1, SetBackground ''9'']" "[None, None]"
      "\<lparr>selected_bg_index = 0, apply_blur = True, background_images = [None, None]\<rparr>" "SetBackground ''5''"]
  show ?thesis by blast
qed

section \<open>The background store: load_backgrounds\<close>

lemma dir_chain_folder: "dir_chain BACKGROUND_FOLDER = [''static'', ''static/backgrounds'']"
  by code_simp

lemma img_path_values:
  "img_path (Suc 0) = ''static/backgrounds/1.png''" "img_path 2 = ''static/backgrounds/2.png''"
  "img_path 3 = ''static/backgrounds/3.png''" "img_path 4 = ''static/backgrounds/4.png''"
  "img_path 5 = ''static/backgrounds/5.png''" "img_path 6 = ''static/backgrounds/6.png''"
  by code_simp+

lemma slot_cases: "1 \<le> i \<Longrightarrow> i \<le> NUM_BACKGROUNDS \<Longrightarrow> i \<in> {1, 2, 3, 4, 5, 6}"
  by (auto simp: NUM_BACKGROUNDS_def)

lemma img_path_not_folder:
  assumes "1 \<le> i" "i \<le> NUM_BACKGROUNDS"
  shows "img_path i \<notin> set (dir_chain BACKGROUND_FOLDER)"
  using slot_cases[OF assms] by (auto simp: dir_chain_folder img_path_values)

lemma makedirs_img_path:
  assumes "1 \<le> i" "i \<le> NUM_BACKGROUNDS"
  shows "makedirs fs BACKGROUND_FOLDER (img_path i) = fs (img_path i)"
  using img_path_not_folder[OF assms] by (simp add: makedirs_def)

lemma load_backgrounds_length:
  "length (background_images (snd (load_backgrounds decode cv_putText fs st))) = NUM_BACKGROUNDS"
  by (simp add: load_backgrounds_def Let_def)

lemma load_backgrounds_nth:
  assumes "1 \<le> i" "i \<le> NUM_BACKGROUNDS"
  shows "background_images (snd (load_backgrounds decode cv_putText fs st)) ! (i - 1) =
     (if fs (img_path i) \<noteq> None then cv_imread decode fs (img_path i)
      else Some (create_placeholder_background cv_putText (int i)))"
proof -
  have n: "[1..<NUM_BACKGROUNDS + 1] ! (i - 1) = i" "i - 1 < NUM_BACKGROUNDS"
    using assms by (simp_all del: upt_Suc add: nth_upt)
  show ?thesis
    using assms n
    by (simp add: load_backgrounds_def Let_def path_exists_def cv_imread_def makedirs_img_path
        del: upt_Suc)
qed

text \<open>
  C9 (background store), as the code has it. \<open>load_backgrounds\<close> always fills
  \<open>background_images\<close> with exactly six entries, slot \<open>i\<close> (1 to 6) at position
  \<open>i - 1\<close>. A slot whose file \<open>static/backgrounds/i.png\<close> does not exist holds the
  generated placeholder for \<open>i\<close>; a slot whose file exists and decodes holds the decoded
  image.
\<close>

theorem load_backgrounds_slots:
  "length (background_images (snd (load_backgrounds decode cv_putText fs st))) = 6
   \<and> (\<forall>i. 1 \<le> i \<and> i \<le> 6 \<longrightarrow>
        (fs (img_path i) = None \<longrightarrow>
           background_images (snd (load_backgrounds decode cv_putText fs st)) ! (i - 1) =
             Some (create_placeholder_background cv_putText (int i)))
      \<and> (\<forall>bytes img. fs (img_path i) = Some (File bytes) \<and> decode bytes = Some img \<longrightarrow>
           background_images (snd (load_backgrounds decode cv_putText fs st)) ! (i - 1) = Some img))"
proof -
  have six: "NUM_BACKGROUNDS = 6" by (simp add: NUM_BACKGROUNDS_def)
  show ?thesis
    using load_backgrounds_length[of decode cv_putText fs st]
      load_backgrounds_nth[of _ decode cv_putText fs st]
    by (auto simp: six cv_imread_def)
qed

theorem load_backgrounds_slots_witness:
  "length (background_images (snd (load_backgrounds
       (\<lambda>bytes. if bytes = [] then None else Some [[[0, 0, 0]]])
       (\<lambda>img text org font scale color thickness. img)
       (\<lambda>p. if p = ''static/backgrounds/2.png'' then Some (File [137, 80]) else None)
       (initial_state [])))) = 6
   \<and> background_images (snd (load_backgrounds
       (\<lambda>bytes. if bytes = [] then None else Some [[[0, 0, 0]]])
       (\<lambda>img text org font scale color thickness. img)
       (\<lambda>p. if p = ''static/backgrounds/2.png'' then Some (File [137, 80]) else None)
       (initial_state []))) ! 0
     = Some (create_placeholder_background (\<lambda>img text org font scale color thickness. img) 1)
   \<and> background_images (snd (load_backgrounds
       (\<lambda>bytes. if bytes = [] then None else Some [[[0, 0, 0]]])
       (\<lambda>img text org font scale color thickness. img)
       (\<lambda>p. if p = ''static/backgrounds/2.png'' then Some (File [137, 80]) else None)
       (initial_state []))) ! 1
     = Some [[[0, 0, 0]]]"
proof -
  let ?dec = "\<lambda>bytes :: 8 word list. if bytes = [] then None else Some [[[0, 0, 0 :: 8 word]]]"
  let ?pt = "\<lambda>(img :: frame) (text :: string) (org :: nat \<times> nat) (font :: nat) (scale :: nat)
                (color :: 8 word \<times> 8 word \<times> 8 word) (thickness :: nat). img"
  let ?fs = "\<lambda>p. if p = ''static/backgrounds/2.png'' then Some (File [137, 80]) else None"
  note t = load_backgrounds_slots [of ?dec ?pt ?fs "initial_state []"]
  have one: "?fs (img_path 1) = None" by (simp add: img_path_values)
  have two: "?fs (img_path 2) = Some (File [137, 80]) \<and> ?dec [137, 80] = Some [[[0, 0, 0]]]"
    by (simp add: img_path_values)
  have a: "background_images (snd (load_backgrounds ?dec ?pt ?fs (initial_state []))) ! (1 - 1)
      = Some (create_placeholder_background ?pt (int 1))"
    using t [THEN conjunct2, rule_format, of 1, THEN conjunct1, rule_format, OF _ one] by simp
  have b: "background_images (snd (load_backgrounds ?dec ?pt ?fs (initial_state []))) ! (2 - 1)
      = Some [[[0, 0, 0]]]"
    using t [THEN conjunct2, rule_format, of 2, THEN conjunct2, rule_format, OF _ two] by simp
  from t a b show ?thesis by simp
qed

text \<open>
  The claim as stated also promises the placeholder for a file that exists and cannot be
  decoded. There \<open>cv2.imread\<close> returns \<open>None\<close> and the code appends it: with an empty
  (undecodable) file at \<open>static/backgrounds/1.png\<close> the first entry is \<open>None\<close>, neither
  the placeholder nor an image.
\<close>

theorem corrupt_file_counterexample:
  "background_images (snd (load_backgrounds
       (\<lambda>bytes. if bytes = [] then None else Some [[[0, 0, 0]]])
       (\<lambda>img text org font scale color thickness. img)
       (\<lambda>p. if p = ''static/backgrounds/1.png'' then Some (File []) else None)
       (initial_state []))) ! 0 = None
   \<and> background_images (snd (load_backgrounds
       (\<lambda>bytes. if bytes = [] then None else Some [[[0, 0, 0]]])
       (\<lambda>img text org font scale color thickness. img)
       (\<lambda>p. if p = ''static/backgrounds/1.png'' then Some (File []) else None)
       (initial_state []))) ! 0
     \<noteq> Some (create_placeholder_background (\<lambda>img text org font scale color thickness. img) 1)"
proof -
  have "(1::nat) \<le> 1" "(1::nat) \<le> NUM_BACKGROUNDS" by (simp_all add: NUM_BACKGROUNDS_def)
  from load_backgrounds_nth[OF this,
      of "\<lambda>bytes. if bytes = [] then None else Some [[[0, 0, 0]]]"
         "\<lambda>img text org font scale color thickness. img"
         "\<lambda>p. if p = ''static/backgrounds/1.png'' then Some (File []) else None"
         "initial_state []"]
  show ?thesis
    by (simp add: img_path_values cv_imread_def)
qed


section \<open>The frame pipeline\<close>

text \<open>
  Where the generator ends by itself (the camera is not open, or a read fails) it has
  released the camera once more; where a library call raises, or the consumer closes the
  generator at the \<open>yield\<close>, it ends without \<open>cap.release()\<close>.
\<close>

lemma loop_pass_stop_releases:
  assumes "fst (loop_pass segment imencode cv_resize cv_GaussianBlur st g) = StopIteration"
  shows "releases (snd (loop_pass segment imencode cv_resize cv_GaussianBlur st g)) = releases g + 1
       \<and> phase (snd (loop_pass segment imencode cv_resize cv_GaussianBlur st g)) = Finished"
  using assms
  by (auto simp: loop_pass_def loop_ends_def unwinds_def Let_def
      split: list.splits option.splits sum.splits prod.splits if_splits)

lemma loop_pass_raised_keeps_camera:
  assumes "fst (loop_pass segment imencode cv_resize cv_GaussianBlur st g) = Raised e"
  shows "releases (snd (loop_pass segment imencode cv_resize cv_GaussianBlur st g)) = releases g
       \<and> phase (snd (loop_pass segment imencode cv_resize cv_GaussianBlur st g)) = Finished"
  using assms
  by (auto simp: loop_pass_def loop_ends_def unwinds_def Let_def
      split: list.splits option.splits sum.splits prod.splits if_splits)

lemma gen_close_suspended:
  "phase g = Suspended \<Longrightarrow> releases (gen_close g) = releases g \<and> phase (gen_close g) = Finished"
  by (simp add: gen_close_def unwinds_def)

lemma loop_pass_segment_raises:
  assumes "is_open g" and "feed g = Some captured # rest"
    and "segment (cv_swap_rb (cv_flip1 captured)) = Inl e"
  shows "fst (loop_pass segment imencode cv_resize cv_GaussianBlur st g) = Raised e"
  using assms by (simp add: loop_pass_def Let_def)

lemma loop_pass_imencode_raises:
  assumes "is_open g" and "feed g = Some captured # rest"
    and "segment (cv_swap_rb (cv_flip1 captured)) = Inr m"
    and "apply_effects cv_resize cv_GaussianBlur st (cv_swap_rb (cv_swap_rb (cv_flip1 captured))) m = Inr out"
    and "imencode out = Inl e"
  shows "fst (loop_pass segment imencode cv_resize cv_GaussianBlur st g) = Raised e"
  using assms by (simp add: loop_pass_def Let_def)

text \<open>
  C7 (camera released exactly once on every exit path) fails on the code for a stream the
  client ends. A camera that delivers frames, a consumer that takes one chunk and closes
  the generator: the generator is finished, the capture was constructed, the \<open>with\<close>
  block was left once, and \<open>cap.release()\<close> ran zero times. (On a failed first read it
  runs once, the last conjunct.)
\<close>

theorem close_skips_release:
  "phase (gen_close (snd (gen_next (\<lambda>img. Inr [[1]]) (\<lambda>img. Inr (True, [255, 216, 255, 217]))
        (\<lambda>b sz. Inr b) (\<lambda>a ks sg. Inr a) (initial_state [])
        (new_generator True [Some [[[1, 2, 3]]], Some [[[4, 5, 6]]]])))) = Finished
   \<and> acquired (gen_close (snd (gen_next (\<lambda>img. Inr [[1]]) (\<lambda>img. Inr (True, [255, 216, 255, 217]))
        (\<lambda>b sz. Inr b) (\<lambda>a ks sg. Inr a) (initial_state [])
        (new_generator True [Some [[[1, 2, 3]]], Some [[[4, 5, 6]]]]))))
   \<and> releases (gen_close (snd (gen_next (\<lambda>img. Inr [[1]]) (\<lambda>img. Inr (True, [255, 216, 255, 217]))
        (\<lambda>b sz. Inr b) (\<lambda>a ks sg. Inr a) (initial_state [])
        (new_generator True [Some [[[1, 2, 3]]], Some [[[4, 5, 6]]]])))) = 0
   \<and> seg_exits (gen_close (snd (gen_next (\<lambda>img. Inr [[1]]) (\<lambda>img. Inr (True, [255, 216, 255, 217]))
        (\<lambda>b sz. Inr b) (\<lambda>a ks sg. Inr a) (initial_state [])
        (new_generator True [Some [[[1, 2, 3]]], Some [[[4, 5, 6]]]])))) = 1
   \<and> releases (snd (gen_next (\<lambda>img. Inr [[1]]) (\<lambda>img. Inr (True, [255, 216, 255, 217]))
        (\<lambda>b sz. Inr b) (\<lambda>a ks sg. Inr a) (initial_state [])
        (new_generator True [None]))) = 1"
  by code_simp

text \<open>
  C8 (encode and segmentation failures end the stream) fails on the code for an encoder
  that reports failure through its flag. \<open>ret\<close> is bound and never read: with
  \<open>imencode\<close> returning \<open>(False, empty buffer)\<close> the generator yields a chunk with an
  empty body, stays suspended at the \<open>yield\<close>, and yields again on the next request. A
  segmentation that raises does end the stream (the last conjunct).
\<close>

theorem failed_encode_is_streamed:
  "gen_next (\<lambda>img. Inr [[1]]) (\<lambda>img. Inr (False, [])) (\<lambda>b sz. Inr b) (\<lambda>a ks sg. Inr a)
       (initial_state []) (new_generator True [Some [[[1, 2, 3]]], Some [[[4, 5, 6]]]])
     = (Yield (multipart_chunk []),
        \<lparr>phase = Suspended, acquired = True, is_open = True, feed = [Some [[[4, 5, 6]]]],
         releases = 0, seg_exits = 0\<rparr>)
   \<and> fst (gen_next (\<lambda>img. Inr [[1]]) (\<lambda>img. Inr (False, [])) (\<lambda>b sz. Inr b) (\<lambda>a ks sg. Inr a)
       (initial_state [])
       \<lparr>phase = Suspended, acquired = True, is_open = True, feed = [Some [[[4, 5, 6]]]],
        releases = 0, seg_exits = 0\<rparr>)
     = Yield (multipart_chunk [])
   \<and> fst (gen_next (\<lambda>img. Inl SegmentationError) (\<lambda>img. Inr (False, [])) (\<lambda>b sz. Inr b) (\<lambda>a ks sg. Inr a)
       (initial_state []) (new_generator True [Some [[[1, 2, 3]]], Some [[[4, 5, 6]]]]))
     = Raised SegmentationError"
  by code_simp

end
